theory Spec2Isabelle
  imports Main "HOL-Library.List_Lexorder" "HOL-Library.Char_ord"
begin

section \<open>The credential store of sqlpipe (internal/data/users.go)\<close>

text \<open>
  The user model keeps accounts in etcd.  Every method of \<open>UserModel\<close> is embedded as a
  function on an explicit store value; an error return or a panic of the Go code is a
  value of type \<open>error\<close>.  Strings are byte lists, as Go strings are, and their order is
  the bytewise lexicographic order (\<open>bytes.Compare\<close>, Go's \<open><\<close> on strings).
\<close>

subsection \<open>Errors\<close>

datatype NumErr = ErrSyntax | ErrRange

datatype error =
    ErrDuplicateUsername
  | ErrInvalidCredentials
  | ErrRecordNotFound
  | EtcdError string
  | JSONError string
  | NumError string string NumErr
  | Panic string

subsection \<open>The structs of the package\<close>

record User =
  Username :: string
  PlaintextPassword :: string
  BcryptedPassword :: "string option"
  AuthToken :: string
  Admin :: bool

record ScrubbedUser =
  Username :: string
  Admin :: bool

text \<open>
  \<open>BcryptedPassword\<close> is a byte slice; \<open>None\<close> is the nil slice.  The zero value of
  \<open>User\<close> is what \<open>var user User\<close> and \<open>User{}\<close> give.
\<close>

definition zero_User :: User where
  "zero_User = \<lparr>User.Username = [], PlaintextPassword = [], BcryptedPassword = None,
     AuthToken = [], User.Admin = False\<rparr>"

definition Scrub :: "User \<Rightarrow> ScrubbedUser" where
  "Scrub user = \<lparr>ScrubbedUser.Username = User.Username user,
     ScrubbedUser.Admin = User.Admin user\<rparr>"

text \<open>
  Modelled from the spec: the type \<open>Token\<close> is declared outside the two source files.
  \<open>GetUserCheckToken\<close> reads one field of it, \<open>ExpiryUnixTime\<close>, and hands it to
  \<open>strconv.ParseInt\<close>, so the field is a string ("expiry as an absolute timestamp,
  text-encoded").
\<close>

record Token =
  ExpiryUnixTime :: string

text \<open>
  Modelled from the spec: \<open>Filters\<close> is declared outside the two source files.  The
  source reads its fields \<open>Page\<close> and \<open>PageSize\<close> and calls its methods
  \<open>sortColumn\<close>, \<open>offset\<close> and \<open>limit\<close> ("pagination parameters (page number, page
  size, sort key restricted to username ascending/descending)").
\<close>

record Filters =
  Page :: int
  PageSize :: int
  Sort :: string

subsection \<open>What the package takes from outside\<close>

text \<open>
  Library functions and declarations that are not in the two source files are parameters
  of the model: the SHA-256 digest printed with \<open>%X\<close>, the string literal encoder and
  the three decoders of \<open>encoding/json\<close> (one per target struct; a decoder returns its
  error message on the left), \<open>sort.Slice\<close> on a slice of scrubbed users (it takes the
  \<open>less\<close> function; the order it gives to elements that \<open>less\<close> does not separate is not
  fixed by the library and differs between its versions), the three methods of \<open>Filters\<close>
  and \<open>calculateMetadata\<close> whose result type \<open>Metadata\<close> is the type parameter.
\<close>

record 'm deps =
  sha256_hex :: "string \<Rightarrow> string"
  json_quote :: "string \<Rightarrow> string"
  json_Unmarshal_User :: "string \<Rightarrow> string + User"
  json_Unmarshal_ScrubbedUser :: "string \<Rightarrow> string + ScrubbedUser"
  json_Unmarshal_Token :: "string \<Rightarrow> string + Token"
  sort_Slice :: "(ScrubbedUser \<Rightarrow> ScrubbedUser \<Rightarrow> bool) \<Rightarrow> ScrubbedUser list \<Rightarrow> ScrubbedUser list"
  sortColumn :: "Filters \<Rightarrow> string"
  offset :: "Filters \<Rightarrow> int"
  limit :: "Filters \<Rightarrow> int"
  calculateMetadata :: "int \<Rightarrow> int \<Rightarrow> int \<Rightarrow> 'm"

subsection \<open>Functions of package strings\<close>

fun HasPrefix :: "string \<Rightarrow> string \<Rightarrow> bool" where
  "HasPrefix s [] = True"
| "HasPrefix [] (p # ps) = False"
| "HasPrefix (c # cs) (p # ps) = (c = p \<and> HasPrefix cs ps)"

definition TrimPrefix :: "string \<Rightarrow> string \<Rightarrow> string" where
  "TrimPrefix s p = (if HasPrefix s p then drop (length p) s else s)"

fun Contains :: "string \<Rightarrow> string \<Rightarrow> bool" where
  "Contains [] substr = (substr = [])"
| "Contains (c # cs) substr = (HasPrefix (c # cs) substr \<or> Contains cs substr)"

text \<open>\<open>strings.Split\<close> for a separator of one byte: one piece more than separators.\<close>

fun Split :: "string \<Rightarrow> char \<Rightarrow> string list" where
  "Split [] sep = [[]]"
| "Split (c # cs) sep =
     (if c = sep then [] # Split cs sep
      else (case Split cs sep of
              [] \<Rightarrow> [[c]]
            | w # ws \<Rightarrow> (c # w) # ws))"

subsection \<open>Functions of packages fmt and strconv\<close>

text \<open>The decimal form of a number, as \<open>fmt.Sprint\<close> prints an integer.\<close>

fun digits :: "nat \<Rightarrow> string" where
  "digits n =
     (if n < 10 then [''0123456789'' ! n]
      else digits (n div 10) @ [''0123456789'' ! (n mod 10)])"

declare digits.simps [simp del]

definition Sprint_int :: "int \<Rightarrow> string" where
  "Sprint_int i = (if i < 0 then CHR ''-'' # digits (nat (- i)) else digits (nat i))"

definition Sprint_bool :: "bool \<Rightarrow> string" where
  "Sprint_bool b = (if b then ''true'' else ''false'')"

definition is_digit :: "char \<Rightarrow> bool" where
  "is_digit c = (48 \<le> (of_char c :: nat) \<and> (of_char c :: nat) \<le> 57)"

definition maxUint64 :: nat where
  "maxUint64 = 18446744073709551615"

text \<open>
  The loop of \<open>strconv.ParseUint\<close> in base 10 on 64 bits: a byte that is not a decimal
  digit is a syntax error, and a value past \<open>maxUint64\<close> is a range error, whichever the
  loop meets first.
\<close>

fun ParseUint_loop :: "nat \<Rightarrow> string \<Rightarrow> NumErr + nat" where
  "ParseUint_loop n [] = Inr n"
| "ParseUint_loop n (c # cs) =
     (if \<not> is_digit c then Inl ErrSyntax
      else if n \<ge> maxUint64 div 10 + 1 then Inl ErrRange
      else (let n1 = n * 10 + ((of_char c :: nat) - 48)
            in if n1 > maxUint64 then Inl ErrRange else ParseUint_loop n1 cs))"

definition ParseUint :: "string \<Rightarrow> NumErr + nat" where
  "ParseUint s = (if s = [] then Inl ErrSyntax else ParseUint_loop 0 s)"

text \<open>\<open>strconv.ParseInt(s, 10, 64)\<close>: an optional sign, then \<open>ParseUint\<close>, then the range of int64.\<close>

definition ParseInt :: "string \<Rightarrow> error + int" where
  "ParseInt s =
     (case s of
        [] \<Rightarrow> Inl (NumError ''ParseInt'' s ErrSyntax)
      | c # cs \<Rightarrow>
          (let neg = (c = CHR ''-'');
               s1 = (if c = CHR ''+'' \<or> c = CHR ''-'' then cs else s)
           in case ParseUint s1 of
                Inl ErrSyntax \<Rightarrow> Inl (NumError ''ParseInt'' s ErrSyntax)
              | r \<Rightarrow>
                  (let un = (case r of Inr n \<Rightarrow> n | Inl e \<Rightarrow> maxUint64)
                   in if \<not> neg \<and> un \<ge> 2 ^ 63 then Inl (NumError ''ParseInt'' s ErrRange)
                      else if neg \<and> un > 2 ^ 63 then Inl (NumError ''ParseInt'' s ErrRange)
                      else Inr (if neg then - int un else int un))))"

definition ParseBool :: "string \<Rightarrow> error + bool" where
  "ParseBool str =
     (if str \<in> set [''1'', ''t'', ''T'', ''TRUE'', ''true'', ''True''] then Inr True
      else if str \<in> set [''0'', ''f'', ''F'', ''FALSE'', ''false'', ''False''] then Inr False
      else Inl (NumError ''ParseBool'' str ErrSyntax))"

text \<open>Addition of two Go \<open>int\<close> values (64 bits, two's complement).\<close>

definition wrap64 :: "int \<Rightarrow> int" where
  "wrap64 x = (x + 2 ^ 63) mod 2 ^ 64 - 2 ^ 63"

subsection \<open>The etcd client\<close>

text \<open>
  The store is the list of its key-value pairs.  A key is in the store exactly when its
  create revision is positive.  \<open>fault\<close> is the transport error, if any, that every call
  of the client returns (a timeout, a lost connection); the model does not cover a run
  where the transport fails between two calls of one method.
\<close>

type_synonym kv = "string \<times> string"

record etcd =
  kvs :: "kv list"
  fault :: "string option"

text \<open>A range read answers in key order.\<close>

definition range_key :: "string \<Rightarrow> kv list \<Rightarrow> kv list" where
  "range_key k s = (case map_of s k of None \<Rightarrow> [] | Some v \<Rightarrow> [(k, v)])"

definition range_prefix :: "string \<Rightarrow> kv list \<Rightarrow> kv list" where
  "range_prefix p s = sort_key fst (filter (\<lambda>kv. HasPrefix (fst kv) p) s)"

definition put_key :: "string \<Rightarrow> string \<Rightarrow> kv list \<Rightarrow> kv list" where
  "put_key k v s = (k, v) # filter (\<lambda>kv. fst kv \<noteq> k) s"

definition delete_prefix :: "string \<Rightarrow> kv list \<Rightarrow> kv list" where
  "delete_prefix p s = filter (\<lambda>kv. \<not> HasPrefix (fst kv) p) s"

datatype Cmp =
    CreateRevision_gt0 string
  | CreateRevision_eq0 string
  | Value_gt string string

datatype Op = OpPut string string | OpGet string

datatype ResponseOp = ResponsePut | ResponseRange "kv list"

record TxnResponse =
  Succeeded :: bool
  Responses :: "ResponseOp list"

text \<open>
  A comparison of a value on a key that does not exist fails; values compare as byte
  strings.
\<close>

fun holds :: "kv list \<Rightarrow> Cmp \<Rightarrow> bool" where
  "holds s (CreateRevision_gt0 k) = (map_of s k \<noteq> None)"
| "holds s (CreateRevision_eq0 k) = (map_of s k = None)"
| "holds s (Value_gt k x) = (case map_of s k of None \<Rightarrow> False | Some v \<Rightarrow> v > x)"

fun apply_op :: "kv list \<Rightarrow> Op \<Rightarrow> kv list \<times> ResponseOp" where
  "apply_op s (OpPut k v) = (put_key k v s, ResponsePut)"
| "apply_op s (OpGet k) = (s, ResponseRange (range_key k s))"

fun apply_ops :: "kv list \<Rightarrow> Op list \<Rightarrow> kv list \<times> ResponseOp list" where
  "apply_ops s [] = (s, [])"
| "apply_ops s (x # xs) =
     (case apply_op s x of
        (s1, r) \<Rightarrow> (case apply_ops s1 xs of (s2, rs) \<Rightarrow> (s2, r # rs)))"

text \<open>\<open>Txn(ctx).If(cmps).Then(thens).Else(elses).Commit()\<close>\<close>

definition Commit :: "etcd \<Rightarrow> Cmp list \<Rightarrow> Op list \<Rightarrow> Op list \<Rightarrow> error + (TxnResponse \<times> etcd)" where
  "Commit st cmps thens elses =
     (case fault st of
        Some e \<Rightarrow> Inl (EtcdError e)
      | None \<Rightarrow>
          (let ok = list_all (holds (kvs st)) cmps
           in case apply_ops (kvs st) (if ok then thens else elses) of
                (s', rs) \<Rightarrow> Inr (\<lparr>Succeeded = ok, Responses = rs\<rparr>, st\<lparr>kvs := s'\<rparr>)))"

definition etcd_Get :: "etcd \<Rightarrow> string \<Rightarrow> error + kv list" where
  "etcd_Get st k =
     (case fault st of Some e \<Rightarrow> Inl (EtcdError e) | None \<Rightarrow> Inr (range_key k (kvs st)))"

definition etcd_Get_WithPrefix :: "etcd \<Rightarrow> string \<Rightarrow> error + kv list" where
  "etcd_Get_WithPrefix st p =
     (case fault st of Some e \<Rightarrow> Inl (EtcdError e) | None \<Rightarrow> Inr (range_prefix p (kvs st)))"

definition etcd_Put :: "etcd \<Rightarrow> string \<Rightarrow> string \<Rightarrow> error option \<times> etcd" where
  "etcd_Put st k v =
     (case fault st of
        Some e \<Rightarrow> (Some (EtcdError e), st)
      | None \<Rightarrow> (None, st\<lparr>kvs := put_key k v (kvs st)\<rparr>))"

definition etcd_Delete_WithPrefix :: "etcd \<Rightarrow> string \<Rightarrow> error option \<times> etcd" where
  "etcd_Delete_WithPrefix st p =
     (case fault st of
        Some e \<Rightarrow> (Some (EtcdError e), st)
      | None \<Rightarrow> (None, st\<lparr>kvs := delete_prefix p (kvs st)\<rparr>))"

text \<open>
  \<open>resp.Responses[i].GetResponseRange()\<close> followed by a field read: an index past the
  responses panics, and so does the field read on the nil range of a put response.
\<close>

definition GetResponseRange :: "ResponseOp list \<Rightarrow> nat \<Rightarrow> error + kv list" where
  "GetResponseRange rs i =
     (if i < length rs
      then (case rs ! i of
              ResponseRange r \<Rightarrow> Inr r
            | ResponsePut \<Rightarrow> Inl (Panic ''nil pointer dereference''))
      else Inl (Panic ''index out of range''))"

subsection \<open>The key layout\<close>

text \<open>
  Modelled from the spec: the functions \<open>GetUserPath\<close>, \<open>GetUserAdminPath\<close>,
  \<open>GetUserHashedPasswordPath\<close> and \<open>GetUserTokenPath\<close> of package \<open>globals\<close> are not in
  the two source files.  The layout is the spec's: "\<open>accounts/{username}\<close> (existence
  marker), \<open>accounts/{username}/admin\<close>, \<open>accounts/{username}/passwordHash\<close>,
  \<open>accounts/{username}/tokens/{tokenHash}\<close>", "all sharing a common account prefix so that
  a prefix scan over the account key enumerates every descendant".  The account prefix is
  the literal that \<open>GetAll\<close> scans, \<open>sqlpipe/data/users\<close>, and the account key ends with
  the username, as \<open>GetUserCheckToken\<close> supposes when it appends \<open>/tokens\<close> to it.
\<close>

definition users_prefix :: string where
  "users_prefix = ''sqlpipe/data/users''"

definition GetUserPath :: "string \<Rightarrow> string" where
  "GetUserPath username = users_prefix @ ''/'' @ username"

definition GetUserAdminPath :: "string \<Rightarrow> string" where
  "GetUserAdminPath username = GetUserPath username @ ''/admin''"

definition GetUserHashedPasswordPath :: "string \<Rightarrow> string" where
  "GetUserHashedPasswordPath username = GetUserPath username @ ''/passwordHash''"

definition GetUserTokenPath :: "string \<Rightarrow> string \<Rightarrow> string" where
  "GetUserTokenPath username hashedToken = GetUserPath username @ ''/tokens/'' @ hashedToken"

subsection \<open>Creating accounts\<close>

definition bytes_of :: "string option \<Rightarrow> string" where
  "bytes_of b = (case b of None \<Rightarrow> [] | Some x \<Rightarrow> x)"

text \<open>
  The failure branch of \<open>InsertCheckToken\<close> (lines 132 to 151), on the two range
  responses of the transaction's \<open>Else\<close>; \<open>now\<close> is the clock read at line 142.
\<close>

definition InsertCheckToken_failed :: "ResponseOp list \<Rightarrow> int \<Rightarrow> error" where
  "InsertCheckToken_failed rs now =
     (case GetResponseRange rs 0 of
        Inl p \<Rightarrow> p
      | Inr [] \<Rightarrow> ErrInvalidCredentials
      | Inr (kv0 # rest) \<Rightarrow>
          (case ParseInt (snd kv0) of
             Inl err \<Rightarrow> err
           | Inr expiry \<Rightarrow>
               if expiry < now then ErrInvalidCredentials
               else (case GetResponseRange rs 1 of
                       Inl p \<Rightarrow> p
                     | Inr (kv1 # rest1) \<Rightarrow> ErrDuplicateUsername
                     | Inr [] \<Rightarrow> Panic ''inserting user failed with an unknown error'')))"

text \<open>
  \<open>now_txn\<close> is the clock read that builds the transaction (line 117), \<open>now_diag\<close> the
  later one of the failure branch (line 142).
\<close>

definition InsertCheckToken ::
  "'m deps \<Rightarrow> etcd \<Rightarrow> int \<Rightarrow> int \<Rightarrow> User \<Rightarrow> User \<Rightarrow> (error + ScrubbedUser) \<times> etcd" where
  "InsertCheckToken E st now_txn now_diag newUser callingUser =
     (let newUserPath = GetUserPath (User.Username newUser);
          newUserAdminPath = GetUserAdminPath (User.Username newUser);
          newUserHashedPasswordPath = GetUserHashedPasswordPath (User.Username newUser);
          fastHashedPassword = sha256_hex E (bytes_of (BcryptedPassword newUser));
          hashedToken = sha256_hex E (AuthToken callingUser);
          callingUserTokenPath = GetUserTokenPath (User.Username callingUser) hashedToken
      in case Commit st
                [CreateRevision_gt0 callingUserTokenPath,
                 Value_gt callingUserTokenPath (Sprint_int now_txn),
                 CreateRevision_eq0 newUserPath]
                [OpPut newUserPath [],
                 OpPut newUserHashedPasswordPath fastHashedPassword,
                 OpPut newUserAdminPath (Sprint_bool (User.Admin newUser))]
                [OpGet callingUserTokenPath,
                 OpGet newUserPath] of
           Inl err \<Rightarrow> (Inl err, st)
         | Inr (resp, st') \<Rightarrow>
             if \<not> Succeeded resp
             then (Inl (InsertCheckToken_failed (Responses resp) now_diag), st')
             else (Inr (Scrub newUser), st'))"

definition Insert :: "'m deps \<Rightarrow> etcd \<Rightarrow> User \<Rightarrow> error option \<times> etcd" where
  "Insert E st newUser =
     (let newUserPath = GetUserPath (User.Username newUser);
          newUserAdminPath = GetUserAdminPath (User.Username newUser);
          newUserHashedPasswordPath = GetUserHashedPasswordPath (User.Username newUser);
          hashedPassword = sha256_hex E (bytes_of (BcryptedPassword newUser))
      in case Commit st
                [CreateRevision_eq0 newUserPath]
                [OpPut newUserPath [],
                 OpPut newUserHashedPasswordPath hashedPassword,
                 OpPut newUserAdminPath (Sprint_bool (User.Admin newUser))]
                [] of
           Inl err \<Rightarrow> (Some err, st)
         | Inr (resp, st') \<Rightarrow>
             if \<not> Succeeded resp then (Some ErrDuplicateUsername, st') else (None, st'))"

subsection \<open>Reading accounts\<close>

definition Get :: "'m deps \<Rightarrow> etcd \<Rightarrow> string \<Rightarrow> error + ScrubbedUser" where
  "Get E st username =
     (case etcd_Get st (GetUserPath username) of
        Inl err \<Rightarrow> Inl err
      | Inr [] \<Rightarrow> Inl ErrRecordNotFound
      | Inr (kv0 # rest) \<Rightarrow>
          (case json_Unmarshal_User E (snd kv0) of
             Inl msg \<Rightarrow> Inl (JSONError msg)
           | Inr user \<Rightarrow> Inr (Scrub user)))"

text \<open>
  The loop of \<open>GetUserWithPassword\<close> (lines 226 to 236): the \<open>switch\<close> is on the whole
  key of the pair.
\<close>

fun GetUserWithPassword_loop :: "kv list \<Rightarrow> User \<Rightarrow> error + User" where
  "GetUserWithPassword_loop [] user = Inr user"
| "GetUserWithPassword_loop (kv # rest) user =
     (if fst kv = ''admin''
      then (case ParseBool (snd kv) of
              Inl err \<Rightarrow> Inl err
            | Inr b \<Rightarrow> GetUserWithPassword_loop rest (user\<lparr>User.Admin := b\<rparr>))
      else if fst kv = ''hashed_password''
      then GetUserWithPassword_loop rest (user\<lparr>BcryptedPassword := Some (snd kv)\<rparr>)
      else GetUserWithPassword_loop rest user)"

definition GetUserWithPassword :: "etcd \<Rightarrow> string \<Rightarrow> error + User" where
  "GetUserWithPassword st username =
     (case etcd_Get_WithPrefix st (GetUserPath username) of
        Inl err \<Rightarrow> Inl err
      | Inr [] \<Rightarrow> Inl ErrRecordNotFound
      | Inr (kv0 # rest) \<Rightarrow>
          GetUserWithPassword_loop (kv0 # rest) (zero_User\<lparr>User.Username := username\<rparr>))"

text \<open>
  \<open>GetUserCheckToken\<close>: the parameter \<open>inputToken\<close> is not read by the body; the token
  key of the transaction is the account key followed by \<open>/tokens\<close>.
\<close>

definition GetUserCheckToken ::
  "'m deps \<Rightarrow> etcd \<Rightarrow> int \<Rightarrow> string \<Rightarrow> string \<Rightarrow> error + ScrubbedUser" where
  "GetUserCheckToken E st now username inputToken =
     (let userDataPath = GetUserPath username;
          userTokenPath = userDataPath @ ''/tokens''
      in case Commit st
                [CreateRevision_gt0 userDataPath,
                 CreateRevision_gt0 userTokenPath]
                [OpGet userTokenPath,
                 OpGet userDataPath]
                [] of
           Inl err \<Rightarrow> Inl err
         | Inr (resp, st') \<Rightarrow>
             if \<not> Succeeded resp then Inl ErrRecordNotFound
             else (case GetResponseRange (Responses resp) 0 of
                     Inl p \<Rightarrow> Inl p
                   | Inr [] \<Rightarrow> Inl (Panic ''index out of range'')
                   | Inr (kv0 # rest0) \<Rightarrow>
                       (case json_Unmarshal_Token E (snd kv0) of
                          Inl msg \<Rightarrow> Inl (JSONError msg)
                        | Inr token \<Rightarrow>
                            (case ParseInt (ExpiryUnixTime token) of
                               Inl err \<Rightarrow> Inl err
                             | Inr expiry \<Rightarrow>
                                 if expiry < now then Inl ErrRecordNotFound
                                 else (case GetResponseRange (Responses resp) 1 of
                                         Inl p \<Rightarrow> Inl p
                                       | Inr [] \<Rightarrow> Inl (Panic ''index out of range'')
                                       | Inr (kv1 # rest1) \<Rightarrow>
                                           (case json_Unmarshal_ScrubbedUser E (snd kv1) of
                                              Inl msg \<Rightarrow> Inl (JSONError msg)
                                            | Inr scrubbedUser \<Rightarrow> Inr scrubbedUser))))))"

subsection \<open>Overwriting and deleting accounts\<close>

definition encodeStd :: string where
  "encodeStd = ''ABCDEFGHIJKLMNOPQRSTUVWXYZabcdefghijklmnopqrstuvwxyz0123456789+/''"

definition b64 :: "nat \<Rightarrow> char" where
  "b64 i = encodeStd ! (i mod 64)"

text \<open>\<open>base64.StdEncoding.EncodeToString\<close>, the form \<open>encoding/json\<close> gives a byte slice.\<close>

fun EncodeToString :: "string \<Rightarrow> string" where
  "EncodeToString (a # b # c # rest) =
     (let v = of_char a * 65536 + of_char b * 256 + (of_char c :: nat)
      in [b64 (v div 262144), b64 (v div 4096), b64 (v div 64), b64 v] @ EncodeToString rest)"
| "EncodeToString [a, b] =
     (let v = of_char a * 65536 + of_char b * (256 :: nat)
      in [b64 (v div 262144), b64 (v div 4096), b64 (v div 64), CHR ''=''])"
| "EncodeToString [a] =
     (let v = of_char a * (65536 :: nat)
      in [b64 (v div 262144), b64 (v div 4096), CHR ''='', CHR ''=''])"
| "EncodeToString [] = []"

text \<open>
  \<open>json.Marshal(user)\<close> by the field tags of \<open>User\<close> (lines 29 to 35): the tag \<open>-\<close> leaves
  \<open>PlaintextPassword\<close> and \<open>AuthToken\<close> out, the tag \<open>_\<close> names the member of
  \<open>BcryptedPassword\<close>; members come in the order of the fields, a nil slice is \<open>null\<close>.
  Marshalling this struct has no error.
\<close>

definition json_Marshal_User :: "'m deps \<Rightarrow> User \<Rightarrow> string" where
  \<open>json_Marshal_User E user =
     ''{"username":'' @ json_quote E (User.Username user) @
     '',"_":'' @
       (case BcryptedPassword user of
          None \<Rightarrow> ''null''
        | Some b \<Rightarrow> ''"'' @ EncodeToString b @ ''"'') @
     '',"admin":'' @ Sprint_bool (User.Admin user) @
     ''}''\<close>

definition UpdateNoLock :: "'m deps \<Rightarrow> etcd \<Rightarrow> User \<Rightarrow> error option \<times> etcd" where
  "UpdateNoLock E st user =
     etcd_Put st (GetUserPath (User.Username user)) (json_Marshal_User E user)"

definition Delete :: "etcd \<Rightarrow> string \<Rightarrow> error option \<times> etcd" where
  "Delete st username =
     (let userDataPath = GetUserPath username
      in case etcd_Get_WithPrefix st userDataPath of
           Inl err \<Rightarrow> (Some err, st)
         | Inr [] \<Rightarrow> (Some ErrRecordNotFound, st)
         | Inr (kv0 # rest) \<Rightarrow> etcd_Delete_WithPrefix st userDataPath)"

subsection \<open>Listing accounts\<close>

text \<open>
  The scan of \<open>GetAll\<close> (lines 361 to 390) on the pairs of the prefix read; the state of
  the loop is the slice \<open>users\<close> and the counter \<open>totalRecords\<close>.
\<close>

fun GetAll_loop ::
  "'m deps \<Rightarrow> string \<Rightarrow> bool option \<Rightarrow> kv list \<Rightarrow> ScrubbedUser list \<times> int
     \<Rightarrow> error + ScrubbedUser list \<times> int" where
  "GetAll_loop E username admin [] acc = Inr acc"
| "GetAll_loop E username admin (kv # rest) acc =
     (let prefixStripped = TrimPrefix (fst kv) ''sqlpipe/data/users'';
          levels = Split prefixStripped (CHR ''/'')
      in case levels of
           [] \<Rightarrow> Inl (Panic ''index out of range'')
         | topLevel # deeper \<Rightarrow>
             if length levels > 1 then GetAll_loop E username admin rest acc
             else if username \<noteq> [] \<and> \<not> Contains topLevel username
             then GetAll_loop E username admin rest acc
             else (case json_Unmarshal_User E (snd kv) of
                     Inl msg \<Rightarrow> Inl (JSONError msg)
                   | Inr user \<Rightarrow>
                       if (case admin of None \<Rightarrow> False | Some a \<Rightarrow> User.Admin user \<noteq> a)
                       then GetAll_loop E username admin rest acc
                       else GetAll_loop E username admin rest
                              (fst acc @ [Scrub user], snd acc + 1)))"

text \<open>
  The \<open>switch\<close> on the sort column (lines 392 to 397): \<open>sort.Slice\<close> with the \<open>less\<close>
  function of the descending order for \<open>-username\<close>, of the ascending order otherwise.
\<close>

definition sort_users :: "'m deps \<Rightarrow> Filters \<Rightarrow> ScrubbedUser list \<Rightarrow> ScrubbedUser list" where
  "sort_users E filters users =
     (if sortColumn E filters = ''-username''
      then sort_Slice E (\<lambda>a b. ScrubbedUser.Username a > ScrubbedUser.Username b) users
      else sort_Slice E (\<lambda>a b. ScrubbedUser.Username a < ScrubbedUser.Username b) users)"

text \<open>The page loop (lines 406 to 408); an index outside the slice panics.\<close>

function GetAll_page ::
  "ScrubbedUser list \<Rightarrow> int \<Rightarrow> int \<Rightarrow> ScrubbedUser list \<Rightarrow> error + ScrubbedUser list" where
  "GetAll_page users i maxItem paginatedUsers =
     (if i < maxItem
      then (if i < 0 \<or> int (length users) \<le> i then Inl (Panic ''index out of range'')
            else GetAll_page users (i + 1) maxItem (paginatedUsers @ [users ! nat i]))
      else Inr paginatedUsers)"
  by pat_completeness auto
termination
  by (relation "measure (\<lambda>(users, i, maxItem, paginatedUsers). nat (maxItem - i))") auto

declare GetAll_page.simps [simp del]

text \<open>
  Modelled from the spec: \<open>pkg.Min\<close> is not in the two source files; it is the smaller of
  its two arguments ("slice to the requested page").
\<close>

definition Min_int :: "int \<Rightarrow> int \<Rightarrow> int" where
  "Min_int a b = (if a < b then a else b)"

definition GetAll ::
  "'m deps \<Rightarrow> etcd \<Rightarrow> string \<Rightarrow> bool option \<Rightarrow> Filters \<Rightarrow> error + ScrubbedUser list \<times> 'm" where
  "GetAll E st username admin filters =
     (case etcd_Get_WithPrefix st ''sqlpipe/data/users'' of
        Inl err \<Rightarrow> Inl err
      | Inr resp_Kvs \<Rightarrow>
          (case GetAll_loop E username admin resp_Kvs ([], 0) of
             Inl err \<Rightarrow> Inl err
           | Inr (users0, totalRecords) \<Rightarrow>
               (let users = sort_users E filters users0
                in if offset E filters > totalRecords
                   then Inr ([], calculateMetadata E totalRecords (Page filters) (PageSize filters))
                   else (let maxItem = Min_int (wrap64 (offset E filters + limit E filters))
                                         totalRecords
                         in case GetAll_page users (offset E filters) maxItem [] of
                              Inl p \<Rightarrow> Inl p
                            | Inr paginatedUsers \<Rightarrow>
                                Inr (paginatedUsers,
                                     calculateMetadata E totalRecords (Page filters)
                                       (PageSize filters))))))"

subsection \<open>The matching accounts, from the specification\<close>

text \<open>
  Modelled from the spec: the accounts that a listing has to count, stated on the key
  layout and not on the scan of \<open>GetAll\<close>.  "Persisted layout: \<open>accounts/{username}\<close>
  (existence marker), \<open>accounts/{username}/admin\<close>, ...": beyond the account prefix and its
  separator an account key has one segment, the username, and a descendant key has more.
  "If more than one segment beyond the prefix, it is a descendant key and is skipped; apply
  the username-substring filter to the top-level segment; decode the value and apply the
  admin filter; accumulate matches."
\<close>

definition segments_beyond_prefix :: "string \<Rightarrow> string list option" where
  "segments_beyond_prefix k =
     (if HasPrefix k (users_prefix @ ''/'')
      then Some (Split (drop (length (users_prefix @ ''/'')) k) (CHR ''/''))
      else None)"

definition account_match :: "'m deps \<Rightarrow> string \<Rightarrow> bool option \<Rightarrow> kv \<Rightarrow> ScrubbedUser list" where
  "account_match E username admin kv =
     (case segments_beyond_prefix (fst kv) of
        Some [name] \<Rightarrow>
          if username = [] \<or> Contains name username
          then (case json_Unmarshal_User E (snd kv) of
                  Inl msg \<Rightarrow> []
                | Inr user \<Rightarrow>
                    if admin = None \<or> admin = Some (User.Admin user) then [Scrub user] else [])
          else []
      | _ \<Rightarrow> [])"

definition true_matches :: "'m deps \<Rightarrow> string \<Rightarrow> bool option \<Rightarrow> kv list \<Rightarrow> ScrubbedUser list" where
  "true_matches E username admin s = concat (map (account_match E username admin) s)"

subsection \<open>Stand-ins for the outside functions, and example values\<close>

text \<open>
  The examples below run the model with fixed stand-ins: a digest that only marks its
  input, a string encoder for names without special characters, decoders that know the
  payloads of the examples and reject the empty input as \<open>encoding/json\<close> does, an
  insertion sort, the pagination arithmetic of page and page size, and a metadata value
  that records the three arguments it was computed from.
\<close>

fun insert_from_right :: "('a \<Rightarrow> 'a \<Rightarrow> bool) \<Rightarrow> 'a \<Rightarrow> 'a list \<Rightarrow> 'a list" where
  "insert_from_right lt x [] = [x]"
| "insert_from_right lt x (y # ys) =
     (if lt x y then y # insert_from_right lt x ys else x # y # ys)"

definition insertion_sort :: "('a \<Rightarrow> 'a \<Rightarrow> bool) \<Rightarrow> 'a list \<Rightarrow> 'a list" where
  "insertion_sort lt xs = rev (foldl (\<lambda>done x. insert_from_right lt x done) [] xs)"

definition alice_json :: string where
  \<open>alice_json = ''{"username":"alice","_":null,"admin":true}''\<close>

definition alice_record_json :: string where
  \<open>alice_record_json =
     ''{"username":"alice","_":"JDJhJDEyJGFiY2RlZmdoaWprbG1ub3BxcnN0dXY=","admin":true}''\<close>

definition token_json :: string where
  \<open>token_json = ''{"ExpiryUnixTime":"1700000000"}''\<close>

definition stub_deps :: "(int \<times> int \<times> int) deps" where
  \<open>stub_deps = \<lparr>
     sha256_hex = (\<lambda>b. ''SHA256:'' @ b),
     json_quote = (\<lambda>s. ''"'' @ s @ ''"''),
     json_Unmarshal_User = (\<lambda>v.
        if v = alice_json
        then Inr (zero_User\<lparr>User.Username := ''alice'', User.Admin := True\<rparr>)
        else if v = alice_record_json
        then Inr (zero_User\<lparr>User.Username := ''alice'',
                    BcryptedPassword := Some ''$2a$12$abcdefghijklmnopqrstuv'',
                    User.Admin := True\<rparr>)
        else Inl ''unexpected end of JSON input''),
     json_Unmarshal_ScrubbedUser = (\<lambda>v.
        if v = alice_json \<or> v = alice_record_json
        then Inr \<lparr>ScrubbedUser.Username = ''alice'', ScrubbedUser.Admin = True\<rparr>
        else Inl ''unexpected end of JSON input''),
     json_Unmarshal_Token = (\<lambda>v.
        if v = token_json
        then Inr \<lparr>ExpiryUnixTime = ''1700000000''\<rparr>
        else Inl ''unexpected end of JSON input''),
     sort_Slice = insertion_sort,
     sortColumn = Sort,
     offset = (\<lambda>f. (Page f - 1) * PageSize f),
     limit = PageSize,
     calculateMetadata = (\<lambda>totalRecords page pageSize. (totalRecords, page, pageSize))\<rparr>\<close>

definition empty_etcd :: etcd where
  "empty_etcd = \<lparr>kvs = [], fault = None\<rparr>"

definition alice :: User where
  "alice = \<lparr>User.Username = ''alice'', PlaintextPassword = ''correct horse battery'',
     BcryptedPassword = Some ''$2a$12$abcdefghijklmnopqrstuv'', AuthToken = ''tok-alice'',
     User.Admin = True\<rparr>"

definition bobby :: User where
  "bobby = \<lparr>User.Username = ''bobby'', PlaintextPassword = ''staple staple staple'',
     BcryptedPassword = Some ''$2a$12$zyxwvutsrqponmlkjihgfe'', AuthToken = [],
     User.Admin = False\<rparr>"

definition first_page :: Filters where
  "first_page = \<lparr>Page = 1, PageSize = 20, Sort = ''username''\<rparr>"

definition third_page :: Filters where
  "third_page = \<lparr>Page = 3, PageSize = 20, Sort = ''username''\<rparr>"

definition etcd_of :: "kv list \<Rightarrow> etcd" where
  "etcd_of s = \<lparr>kvs = s, fault = None\<rparr>"

text \<open>The key under which the layout keeps the token that \<open>alice\<close> presents.\<close>

definition alice_token_key :: string where
  "alice_token_key = GetUserTokenPath ''alice'' (sha256_hex stub_deps (AuthToken alice))"

text \<open>
  The store after the bootstrap creation of \<open>alice\<close>, then with a session token of hers
  under the key of the layout (the login flow that writes it is outside the package), and
  the store after the creation of a user whose name begins with hers.
\<close>

definition alice_created :: etcd where
  "alice_created = snd (Insert stub_deps empty_etcd alice)"

definition alice_logged_in :: "string \<Rightarrow> etcd" where
  "alice_logged_in expiry = alice_created\<lparr>kvs := (alice_token_key, expiry) # kvs alice_created\<rparr>"

definition alice2_created :: etcd where
  "alice2_created = snd (Insert stub_deps empty_etcd (alice\<lparr>User.Username := ''alice2''\<rparr>))"

text \<open>
  A store as \<open>GetUserCheckToken\<close> reads it: the account key holds the JSON record, the
  key \<open>tokens\<close> below it a JSON token; and the store after \<open>UpdateNoLock\<close> has written the
  record of \<open>alice\<close> into the empty store.
\<close>

definition alice_json_store :: etcd where
  "alice_json_store =
     etcd_of [(GetUserPath ''alice'', alice_json), (GetUserPath ''alice'' @ ''/tokens'', token_json)]"

definition alice_overwritten :: etcd where
  "alice_overwritten = snd (UpdateNoLock stub_deps empty_etcd alice)"

section \<open>Properties\<close>

subsection \<open>The store and the string functions\<close>

lemma map_of_filter_neq:
  "map_of (filter (\<lambda>kv. fst kv \<noteq> k) s) k' = (if k' = k then None else map_of s k')"
  by (induction s) auto

lemma map_of_put_key:
  "map_of (put_key k v s) k' = (if k' = k then Some v else map_of s k')"
  by (simp add: put_key_def map_of_filter_neq)

lemma HasPrefix_append: "HasPrefix (p @ x) p"
  by (induction p) auto

lemma HasPrefix_iff: "HasPrefix s p \<longleftrightarrow> (\<exists>x. s = p @ x)"
proof (induction s p rule: HasPrefix.induct)
  case (1 s) then show ?case by simp
next
  case (2 p ps) then show ?case by simp
next
  case (3 c cs p ps) then show ?case by auto
qed

lemma set_range_prefix:
  "set (range_prefix p s) = {kv \<in> set s. HasPrefix (fst kv) p}"
  by (simp add: range_prefix_def)

lemma range_prefix_empty_iff:
  "range_prefix p s = [] \<longleftrightarrow> (\<forall>kv \<in> set s. \<not> HasPrefix (fst kv) p)"
proof -
  have "range_prefix p s = [] \<longleftrightarrow> set (range_prefix p s) = {}" by simp
  also have "\<dots> \<longleftrightarrow> (\<forall>kv \<in> set s. \<not> HasPrefix (fst kv) p)"
    unfolding set_range_prefix by auto
  finally show ?thesis .
qed

lemma map_of_delete_prefix:
  "map_of (delete_prefix p s) k = (if HasPrefix k p then None else map_of s k)"
  unfolding delete_prefix_def by (induction s) auto

lemma range_prefix_delete_prefix: "range_prefix p (delete_prefix p s) = []"
  by (simp add: range_prefix_empty_iff delete_prefix_def)

lemma Split_not_Nil: "Split s sep \<noteq> []"
  by (induction s) (auto split: list.splits)

lemma Contains_self: "Contains (b @ c) b"
  by (cases "b @ c") (auto simp: HasPrefix_append, metis HasPrefix_append)

lemma Contains_append: "Contains (a @ b @ c) b"
proof (induction a)
  case Nil then show ?case by (simp add: Contains_self)
next
  case (Cons x a) then show ?case by simp
qed

lemma GetUserPath_append: "GetUserPath (u @ x) = GetUserPath u @ x"
  by (simp add: GetUserPath_def)

subsection \<open>The example stores, evaluated\<close>

lemma Insert_fresh:
  assumes "fault st = None"
    and "map_of (kvs st) (GetUserPath (User.Username newUser)) = None"
  shows "Insert E st newUser =
           (None, st\<lparr>kvs :=
              put_key (GetUserAdminPath (User.Username newUser)) (Sprint_bool (User.Admin newUser))
                (put_key (GetUserHashedPasswordPath (User.Username newUser))
                   (sha256_hex E (bytes_of (BcryptedPassword newUser)))
                   (put_key (GetUserPath (User.Username newUser)) [] (kvs st)))\<rparr>)"
  using assms by (simp add: Insert_def Commit_def)

lemma alice_created_eq:
  "alice_created =
     etcd_of [(''sqlpipe/data/users/alice/admin'', ''true''),
              (''sqlpipe/data/users/alice/passwordHash'', ''SHA256:$2a$12$abcdefghijklmnopqrstuv''),
              (''sqlpipe/data/users/alice'', [])]"
  by (simp add: alice_created_def Insert_fresh empty_etcd_def etcd_of_def alice_def stub_deps_def
        put_key_def GetUserPath_def GetUserAdminPath_def GetUserHashedPasswordPath_def
        users_prefix_def bytes_of_def Sprint_bool_def)

lemma alice2_created_eq:
  "alice2_created =
     etcd_of [(''sqlpipe/data/users/alice2/admin'', ''true''),
              (''sqlpipe/data/users/alice2/passwordHash'', ''SHA256:$2a$12$abcdefghijklmnopqrstuv''),
              (''sqlpipe/data/users/alice2'', [])]"
  by (simp add: alice2_created_def Insert_fresh empty_etcd_def etcd_of_def alice_def stub_deps_def
        put_key_def GetUserPath_def GetUserAdminPath_def GetUserHashedPasswordPath_def
        users_prefix_def bytes_of_def Sprint_bool_def)

lemma alice_token_key_eq:
  "alice_token_key = ''sqlpipe/data/users/alice/tokens/SHA256:tok-alice''"
  by (simp add: alice_token_key_def GetUserTokenPath_def GetUserPath_def users_prefix_def
        stub_deps_def alice_def)

lemma alice_logged_in_eq:
  "alice_logged_in expiry =
     etcd_of [(''sqlpipe/data/users/alice/tokens/SHA256:tok-alice'', expiry),
              (''sqlpipe/data/users/alice/admin'', ''true''),
              (''sqlpipe/data/users/alice/passwordHash'', ''SHA256:$2a$12$abcdefghijklmnopqrstuv''),
              (''sqlpipe/data/users/alice'', [])]"
  by (simp add: alice_logged_in_def alice_created_eq alice_token_key_eq etcd_of_def)

lemma Sprint_int_1700000000: "Sprint_int 1700000000 = ''1700000000''"
  by (simp add: Sprint_int_def digits.simps)

lemma ParseInt_examples:
  "ParseInt ''1600000000'' = Inr 1600000000"
  "ParseInt ''1700000000'' = Inr 1700000000"
  "ParseInt ''1800000000'' = Inr 1800000000"
  "ParseInt ''soon'' = Inl (NumError ''ParseInt'' ''soon'' ErrSyntax)"
  by (simp_all add: ParseInt_def ParseUint_def is_digit_def maxUint64_def)

subsection \<open>Token validation\<close>

lemma GetUserCheckToken_no_tokens_key:
  assumes "fault st = None"
    and "map_of (kvs st) (GetUserPath username @ ''/tokens'') = None"
  shows "GetUserCheckToken E st now username inputToken = Inl ErrRecordNotFound"
  using assms by (simp add: GetUserCheckToken_def Commit_def)

lemma GetUserCheckToken_found:
  assumes "fault st = None"
    and "map_of (kvs st) (GetUserPath username) = Some av"
    and "map_of (kvs st) (GetUserPath username @ ''/tokens'') = Some tv"
  shows "GetUserCheckToken E st now username inputToken =
           (case json_Unmarshal_Token E tv of
              Inl msg \<Rightarrow> Inl (JSONError msg)
            | Inr token \<Rightarrow>
                (case ParseInt (ExpiryUnixTime token) of
                   Inl err \<Rightarrow> Inl err
                 | Inr expiry \<Rightarrow>
                     if expiry < now then Inl ErrRecordNotFound
                     else (case json_Unmarshal_ScrubbedUser E av of
                             Inl msg \<Rightarrow> Inl (JSONError msg)
                           | Inr scrubbedUser \<Rightarrow> Inr scrubbedUser)))"
  using assms
  by (simp add: GetUserCheckToken_def Commit_def range_key_def GetResponseRange_def
           split: sum.splits)

text \<open>
  Claim C1 says that the transaction of \<open>GetUserCheckToken\<close> checks the token key derived
  from the raw token the caller supplies, \<open>accounts/{u}/tokens/{hash(r)}\<close>.  The code does
  not: its result is the same for every raw token, and the one token key it checks is the
  account key followed by \<open>/tokens\<close>; where that key is absent the answer is
  \<open>ErrRecordNotFound\<close>, whatever is stored under the key of the supplied token.
\<close>

theorem C1_token_key_is_not_derived_from_the_token:
  "GetUserCheckToken E st now username inputToken
     = GetUserCheckToken E st now username inputToken'
   \<and> (fault st = None \<and> map_of (kvs st) (GetUserPath username @ ''/tokens'') = None
        \<longrightarrow> GetUserCheckToken E st now username inputToken = Inl ErrRecordNotFound)"
  by (simp add: GetUserCheckToken_no_tokens_key) (simp add: GetUserCheckToken_def)

text \<open>
  At a concrete store: \<open>alice\<close> exists and her token, valid until 1800000000, is stored
  under the key of the layout; at time 1700000000 her own token is rejected, as any other
  string is.
\<close>

theorem C1_token_key_is_not_derived_from_the_token_witness:
  "map_of (kvs (alice_logged_in ''1800000000'')) (GetUserPath ''alice'') = Some []
   \<and> map_of (kvs (alice_logged_in ''1800000000''))
        (GetUserTokenPath ''alice'' (sha256_hex stub_deps ''tok-alice'')) = Some ''1800000000''
   \<and> GetUserCheckToken stub_deps (alice_logged_in ''1800000000'') 1700000000 ''alice'' ''tok-alice''
        = Inl ErrRecordNotFound
   \<and> GetUserCheckToken stub_deps (alice_logged_in ''1800000000'') 1700000000 ''alice'' ''tok-alice''
        = GetUserCheckToken stub_deps (alice_logged_in ''1800000000'') 1700000000 ''alice''
            ''not a token''"
proof -
  have keys:
    "map_of (kvs (alice_logged_in ''1800000000'')) (GetUserPath ''alice'') = Some []"
    "map_of (kvs (alice_logged_in ''1800000000''))
        (GetUserTokenPath ''alice'' (sha256_hex stub_deps ''tok-alice'')) = Some ''1800000000''"
    by (simp_all add: alice_logged_in_eq etcd_of_def GetUserPath_def GetUserTokenPath_def
          users_prefix_def stub_deps_def)
  have absent:
    "fault (alice_logged_in ''1800000000'') = None
     \<and> map_of (kvs (alice_logged_in ''1800000000'')) (GetUserPath ''alice'' @ ''/tokens'') = None"
    by (simp add: alice_logged_in_eq etcd_of_def GetUserPath_def users_prefix_def)
  from C1_token_key_is_not_derived_from_the_token
         [of stub_deps "alice_logged_in ''1800000000''" 1700000000 "''alice''" "''tok-alice''"
             "''not a token''"]
  show ?thesis using keys absent by blast
qed

text \<open>
  Claim C3 says that a token with expiry \<open>t\<close> validates for every \<open>now < t\<close> and fails
  with NotFound for every \<open>now \<ge> t\<close>.  The code rejects with \<open>expiry < now\<close>: where the
  transaction finds the account and the token key it reads, and both payloads decode, the
  token is rejected exactly when \<open>t < now\<close>, so at \<open>now = t\<close> it still validates.
\<close>

theorem C3_token_accepted_at_its_expiry:
  assumes "fault st = None"
    and "map_of (kvs st) (GetUserPath username) = Some av"
    and "map_of (kvs st) (GetUserPath username @ ''/tokens'') = Some tv"
    and "json_Unmarshal_Token E tv = Inr token"
    and "ParseInt (ExpiryUnixTime token) = Inr t"
    and "json_Unmarshal_ScrubbedUser E av = Inr scrubbedUser"
  shows "GetUserCheckToken E st now username inputToken =
           (if t < now then Inl ErrRecordNotFound else Inr scrubbedUser)"
  using assms(4,5,6) by (simp add: GetUserCheckToken_found [OF assms(1,2,3)])

text \<open>The token of the example expires at 1700000000 and validates at 1700000000.\<close>

theorem C3_token_accepted_at_its_expiry_witness:
  "ParseInt (ExpiryUnixTime \<lparr>ExpiryUnixTime = ''1700000000''\<rparr>) = Inr 1700000000
   \<and> GetUserCheckToken stub_deps alice_json_store 1700000000 ''alice'' ''tok-alice''
        = Inr \<lparr>ScrubbedUser.Username = ''alice'', ScrubbedUser.Admin = True\<rparr>"
proof -
  have 1: "fault alice_json_store = None"
    by (simp add: alice_json_store_def etcd_of_def)
  have 2: "map_of (kvs alice_json_store) (GetUserPath ''alice'') = Some alice_json"
    by (simp add: alice_json_store_def etcd_of_def)
  have 3: "map_of (kvs alice_json_store) (GetUserPath ''alice'' @ ''/tokens'') = Some token_json"
    by (simp add: alice_json_store_def etcd_of_def)
  have 4: "json_Unmarshal_Token stub_deps token_json = Inr \<lparr>ExpiryUnixTime = ''1700000000''\<rparr>"
    by (simp add: stub_deps_def)
  have 5: "ParseInt (ExpiryUnixTime \<lparr>ExpiryUnixTime = ''1700000000''\<rparr>) = Inr 1700000000"
    by (simp add: ParseInt_examples)
  have 6: "json_Unmarshal_ScrubbedUser stub_deps alice_json
             = Inr \<lparr>ScrubbedUser.Username = ''alice'', ScrubbedUser.Admin = True\<rparr>"
    by (simp add: stub_deps_def)
  from C3_token_accepted_at_its_expiry [OF 1 2 3 4 5 6, of 1700000000 "''tok-alice''"] 5
  show ?thesis by simp
qed

subsection \<open>Authenticated creation\<close>

lemma InsertCheckToken_when_failed:
  assumes "fault st = None"
    and "tp = GetUserTokenPath (User.Username callingUser) (sha256_hex E (AuthToken callingUser))"
    and "np = GetUserPath (User.Username newUser)"
    and "\<not> (holds (kvs st) (CreateRevision_gt0 tp)
             \<and> holds (kvs st) (Value_gt tp (Sprint_int now_txn))
             \<and> holds (kvs st) (CreateRevision_eq0 np))"
  shows "InsertCheckToken E st now_txn now_diag newUser callingUser =
           (Inl (InsertCheckToken_failed
                   [ResponseRange (range_key tp (kvs st)), ResponseRange (range_key np (kvs st))]
                   now_diag), st)"
proof -
  have ok: "list_all (holds (kvs st))
              [CreateRevision_gt0 tp, Value_gt tp (Sprint_int now_txn), CreateRevision_eq0 np] = False"
    using assms(4) by simp
  show ?thesis
    unfolding InsertCheckToken_def Let_def Commit_def
    using assms(1) ok by (simp add: assms(2,3)[symmetric])
qed

lemma InsertCheckToken_failed_absent:
  "InsertCheckToken_failed [ResponseRange [], r1] now = ErrInvalidCredentials"
  by (simp add: InsertCheckToken_failed_def GetResponseRange_def)

lemma InsertCheckToken_failed_present:
  "InsertCheckToken_failed [ResponseRange [(k, v)], ResponseRange r1] now =
     (case ParseInt v of
        Inl err \<Rightarrow> err
      | Inr expiry \<Rightarrow>
          if expiry < now then ErrInvalidCredentials
          else if r1 \<noteq> [] then ErrDuplicateUsername
          else Panic ''inserting user failed with an unknown error'')"
  by (simp add: InsertCheckToken_failed_def GetResponseRange_def split: sum.splits list.splits)

text \<open>
  Claim C2, as amended.  Whenever the transaction of \<open>InsertCheckToken\<close> fails its
  condition set, the store is left as it was and the fallback reads classify the failure in
  this order: \<open>ErrInvalidCredentials\<close> if the caller's hashed-token key is absent; else the
  error of \<open>strconv.ParseInt\<close> if the stored expiry is not a decimal 64-bit integer; else
  \<open>ErrInvalidCredentials\<close> if the expiry is strictly in the past; else, for an expiry
  strictly in the future, \<open>ErrDuplicateUsername\<close> if the target account key exists.
\<close>

theorem C2_failed_creation_classified:
  assumes "fault st = None"
    and "tp = GetUserTokenPath (User.Username callingUser) (sha256_hex E (AuthToken callingUser))"
    and "np = GetUserPath (User.Username newUser)"
    and "\<not> (holds (kvs st) (CreateRevision_gt0 tp)
             \<and> holds (kvs st) (Value_gt tp (Sprint_int now_txn))
             \<and> holds (kvs st) (CreateRevision_eq0 np))"
  shows "(map_of (kvs st) tp = None \<longrightarrow>
            InsertCheckToken E st now_txn now_diag newUser callingUser
              = (Inl ErrInvalidCredentials, st))
       \<and> (\<forall>v e. map_of (kvs st) tp = Some v \<and> ParseInt v = Inl e \<longrightarrow>
            InsertCheckToken E st now_txn now_diag newUser callingUser = (Inl e, st))
       \<and> (\<forall>v expiry. map_of (kvs st) tp = Some v \<and> ParseInt v = Inr expiry
              \<and> expiry < now_diag \<longrightarrow>
            InsertCheckToken E st now_txn now_diag newUser callingUser
              = (Inl ErrInvalidCredentials, st))
       \<and> (\<forall>v expiry. map_of (kvs st) tp = Some v \<and> ParseInt v = Inr expiry
              \<and> now_diag < expiry \<and> map_of (kvs st) np \<noteq> None \<longrightarrow>
            InsertCheckToken E st now_txn now_diag newUser callingUser
              = (Inl ErrDuplicateUsername, st))"
  unfolding InsertCheckToken_when_failed [OF assms]
  by (auto simp: range_key_def InsertCheckToken_failed_absent InsertCheckToken_failed_present
           split: option.splits)

lemma example_lookups:
  "fault alice_created = None"
  "fault (alice_logged_in e) = None"
  "map_of (kvs alice_created) alice_token_key = None"
  "map_of (kvs (alice_logged_in e)) alice_token_key = Some e"
  "map_of (kvs (alice_logged_in e)) (GetUserPath ''alice'') = Some []"
  "map_of (kvs (alice_logged_in e)) (GetUserPath ''bobby'') = None"
  "map_of (kvs alice_created) (GetUserPath ''bobby'') = None"
  by (simp_all add: alice_created_eq alice_logged_in_eq alice_token_key_eq etcd_of_def
        GetUserPath_def users_prefix_def)

lemma example_paths:
  "alice_token_key = GetUserTokenPath (User.Username alice) (sha256_hex stub_deps (AuthToken alice))"
  "GetUserPath ''alice'' = GetUserPath (User.Username alice)"
  "GetUserPath ''bobby'' = GetUserPath (User.Username bobby)"
  by (simp_all add: alice_token_key_def alice_def bobby_def)

lemma ParseInt_token_json:
  "ParseInt token_json = Inl (NumError ''ParseInt'' token_json ErrSyntax)"
  by (simp add: token_json_def ParseInt_def ParseUint_def is_digit_def)

text \<open>
  The four cases at concrete stores, at time 1700000000: no token key; a token stored as
  the JSON document that \<open>GetUserCheckToken\<close> reads, with the target already there; a token
  expired at 1600000000; a token valid until 1800000000 with the target already there.
\<close>

theorem C2_failed_creation_classified_witness:
  "InsertCheckToken stub_deps alice_created 1700000000 1700000000 bobby alice
     = (Inl ErrInvalidCredentials, alice_created)
   \<and> InsertCheckToken stub_deps (alice_logged_in token_json) 1700000000 1700000000 alice alice
     = (Inl (NumError ''ParseInt'' token_json ErrSyntax), alice_logged_in token_json)
   \<and> InsertCheckToken stub_deps (alice_logged_in ''1600000000'') 1700000000 1700000000 bobby alice
     = (Inl ErrInvalidCredentials, alice_logged_in ''1600000000'')
   \<and> InsertCheckToken stub_deps (alice_logged_in ''1800000000'') 1700000000 1700000000 alice alice
     = (Inl ErrDuplicateUsername, alice_logged_in ''1800000000'')"
proof -
  have a: "\<not> (holds (kvs alice_created) (CreateRevision_gt0 alice_token_key)
             \<and> holds (kvs alice_created) (Value_gt alice_token_key (Sprint_int 1700000000))
             \<and> holds (kvs alice_created) (CreateRevision_eq0 (GetUserPath ''bobby'')))"
    by (simp add: example_lookups)
  have b: "\<not> (holds (kvs (alice_logged_in e)) (CreateRevision_gt0 alice_token_key)
             \<and> holds (kvs (alice_logged_in e)) (Value_gt alice_token_key (Sprint_int 1700000000))
             \<and> holds (kvs (alice_logged_in e)) (CreateRevision_eq0 (GetUserPath ''alice'')))" for e
    by (simp add: example_lookups)
  have c: "\<not> (holds (kvs (alice_logged_in ''1600000000'')) (CreateRevision_gt0 alice_token_key)
             \<and> holds (kvs (alice_logged_in ''1600000000''))
                 (Value_gt alice_token_key (Sprint_int 1700000000))
             \<and> holds (kvs (alice_logged_in ''1600000000''))
                 (CreateRevision_eq0 (GetUserPath ''bobby'')))"
    by (simp add: example_lookups Sprint_int_1700000000)
  from C2_failed_creation_classified
         [OF example_lookups(1) example_paths(1) example_paths(3) a, of 1700000000]
  have 1: "InsertCheckToken stub_deps alice_created 1700000000 1700000000 bobby alice
             = (Inl ErrInvalidCredentials, alice_created)"
    by (simp add: example_lookups)
  from C2_failed_creation_classified
         [OF example_lookups(2) example_paths(1) example_paths(2) b, of token_json 1700000000]
  have 2: "InsertCheckToken stub_deps (alice_logged_in token_json) 1700000000 1700000000 alice alice
             = (Inl (NumError ''ParseInt'' token_json ErrSyntax), alice_logged_in token_json)"
    by (simp add: example_lookups ParseInt_token_json)
  from C2_failed_creation_classified
         [OF example_lookups(2) example_paths(1) example_paths(3) c, of 1700000000]
  have 3: "InsertCheckToken stub_deps (alice_logged_in ''1600000000'') 1700000000 1700000000
             bobby alice = (Inl ErrInvalidCredentials, alice_logged_in ''1600000000'')"
    by (simp add: example_lookups ParseInt_examples)
  from C2_failed_creation_classified
         [OF example_lookups(2) example_paths(1) example_paths(2) b, of "''1800000000''" 1700000000]
  have 4: "InsertCheckToken stub_deps (alice_logged_in ''1800000000'') 1700000000 1700000000
             alice alice = (Inl ErrDuplicateUsername, alice_logged_in ''1800000000'')"
    by (simp add: example_lookups ParseInt_examples)
  from 1 2 3 4 show ?thesis by blast
qed

text \<open>
  Claim C2 as stated fails: here the transaction fails its condition set (the target
  account exists) and the operation returns neither \<open>ErrInvalidCredentials\<close> nor
  \<open>ErrDuplicateUsername\<close> but the syntax error of \<open>strconv.ParseInt\<close>, since the stored
  token value is not a decimal integer.
\<close>

theorem C2_counterexample:
  "\<not> list_all (holds (kvs (alice_logged_in token_json)))
        [CreateRevision_gt0 alice_token_key,
         Value_gt alice_token_key (Sprint_int 1700000000),
         CreateRevision_eq0 (GetUserPath ''alice'')]
   \<and> fst (InsertCheckToken stub_deps (alice_logged_in token_json) 1700000000 1700000000
             alice alice)
       = Inl (NumError ''ParseInt'' token_json ErrSyntax)"
proof -
  have b: "\<not> (holds (kvs (alice_logged_in token_json)) (CreateRevision_gt0 alice_token_key)
             \<and> holds (kvs (alice_logged_in token_json))
                 (Value_gt alice_token_key (Sprint_int 1700000000))
             \<and> holds (kvs (alice_logged_in token_json))
                 (CreateRevision_eq0 (GetUserPath ''alice'')))"
    by (simp add: example_lookups)
  from InsertCheckToken_when_failed
         [OF example_lookups(2) example_paths(1) example_paths(2) b, of 1700000000]
  show ?thesis
    using b
    by (simp add: example_lookups range_key_def InsertCheckToken_failed_present
          ParseInt_token_json)
qed

text \<open>
  Claim C7 says that the abort \<open>inserting user failed with an unknown error\<close> cannot be
  reached.  It is reached: when the caller's token is stored, its value is not greater (as
  a byte string) than the printed time of the transaction, its expiry is not before the
  time of the diagnosis, and the target account is absent, the transaction fails and none
  of the three diagnosed causes holds.
\<close>

theorem C7_unknown_error_reached:
  assumes "fault st = None"
    and "tp = GetUserTokenPath (User.Username callingUser) (sha256_hex E (AuthToken callingUser))"
    and "np = GetUserPath (User.Username newUser)"
    and "map_of (kvs st) tp = Some v"
    and "\<not> v > Sprint_int now_txn"
    and "ParseInt v = Inr expiry"
    and "\<not> expiry < now_diag"
    and "map_of (kvs st) np = None"
  shows "InsertCheckToken E st now_txn now_diag newUser callingUser =
           (Inl (Panic ''inserting user failed with an unknown error''), st)"
proof -
  have "\<not> (holds (kvs st) (CreateRevision_gt0 tp)
             \<and> holds (kvs st) (Value_gt tp (Sprint_int now_txn))
             \<and> holds (kvs st) (CreateRevision_eq0 np))"
    using assms(4,5) by simp
  from InsertCheckToken_when_failed [OF assms(1,2,3) this]
  show ?thesis
    using assms(4,6,7,8)
    by (simp add: range_key_def InsertCheckToken_failed_present)
qed

text \<open>
  A token that expires in the very second of the call: \<open>alice\<close> presents her token, stored
  with expiry 1700000000, at time 1700000000, to create \<open>bobby\<close>, who does not exist.
\<close>

theorem C7_unknown_error_reached_witness:
  "map_of (kvs (alice_logged_in ''1700000000'')) alice_token_key = Some ''1700000000''
   \<and> map_of (kvs (alice_logged_in ''1700000000'')) (GetUserPath ''bobby'') = None
   \<and> InsertCheckToken stub_deps (alice_logged_in ''1700000000'') 1700000000 1700000000 bobby alice
       = (Inl (Panic ''inserting user failed with an unknown error''),
          alice_logged_in ''1700000000'')"
proof -
  have gt: "\<not> ''1700000000'' > Sprint_int 1700000000"
    by (simp add: Sprint_int_1700000000)
  have lt: "\<not> (1700000000 :: int) < 1700000000"
    by simp
  from C7_unknown_error_reached
         [OF example_lookups(2) example_paths(1) example_paths(3) example_lookups(4) gt
             ParseInt_examples(2) lt example_lookups(6)]
  show ?thesis
    by (simp add: example_lookups)
qed

subsection \<open>Bootstrap creation, then reading\<close>

text \<open>
  Claim C5 says that after a successful \<open>Insert\<close> of \<open>alice\<close> with \<open>admin = true\<close>,
  \<open>Get\<close> returns her scrubbed account with no error.  The code does not: \<open>Insert\<close> writes
  the empty value under the account key and \<open>Get\<close> decodes that value as JSON, so after
  every successful \<open>Insert\<close> the \<open>Get\<close> of the same name returns the decoder's error for the
  empty input.
\<close>

theorem C5_Get_after_Insert_is_a_decoding_error:
  assumes "fault st = None"
    and "map_of (kvs st) (GetUserPath (User.Username newUser)) = None"
    and "json_Unmarshal_User E [] = Inl msg"
  shows "fst (Insert E st newUser) = None
       \<and> Get E (snd (Insert E st newUser)) (User.Username newUser) = Inl (JSONError msg)"
  using assms(1,3)
  by (simp add: Insert_fresh [OF assms(1,2)] Get_def etcd_Get_def range_key_def map_of_put_key
        GetUserAdminPath_def GetUserHashedPasswordPath_def)

theorem C5_Get_after_Insert_is_a_decoding_error_witness:
  "User.Admin alice = True
   \<and> fst (Insert stub_deps empty_etcd alice) = None
   \<and> Get stub_deps (snd (Insert stub_deps empty_etcd alice)) ''alice''
       = Inl (JSONError ''unexpected end of JSON input'')"
proof -
  have 1: "fault empty_etcd = None"
    by (simp add: empty_etcd_def)
  have 2: "map_of (kvs empty_etcd) (GetUserPath (User.Username alice)) = None"
    by (simp add: empty_etcd_def)
  have 3: "json_Unmarshal_User stub_deps [] = Inl ''unexpected end of JSON input''"
    by (simp add: stub_deps_def alice_json_def alice_record_json_def)
  from C5_Get_after_Insert_is_a_decoding_error [OF 1 2 3]
  show ?thesis by (simp add: alice_def)
qed

lemma GetUserWithPassword_loop_no_case:
  "\<forall>kv \<in> set l. fst kv \<noteq> ''admin'' \<and> fst kv \<noteq> ''hashed_password'' \<Longrightarrow>
   GetUserWithPassword_loop l user = Inr user"
  by (induction l arbitrary: user) auto

lemma under_GetUserPath_no_case:
  assumes "HasPrefix k (GetUserPath username)"
  shows "k \<noteq> ''admin'' \<and> k \<noteq> ''hashed_password''"
proof -
  obtain x where "k = GetUserPath username @ x"
    using assms unfolding HasPrefix_iff by blast
  then show ?thesis by (simp add: GetUserPath_def users_prefix_def)
qed

text \<open>
  Claim C6 says that \<open>GetUserWithPassword\<close> reassembles the admin flag and the password
  hash from the child keys by their suffix, and fails with NotFound exactly when the prefix
  scan returns no keys.  The second part holds.  The first does not: the \<open>switch\<close> compares
  the whole key with \<open>admin\<close> and \<open>hashed_password\<close>, and no key of the scan, which begins
  with the account key, equals either; the user returned has the name asked for and
  nothing else, whatever the child keys hold.
\<close>

theorem C6_GetUserWithPassword_reads_no_child_key:
  assumes "fault st = None"
  shows "GetUserWithPassword st username =
           (if range_prefix (GetUserPath username) (kvs st) = [] then Inl ErrRecordNotFound
            else Inr (zero_User\<lparr>User.Username := username\<rparr>))"
proof -
  have "\<forall>kv \<in> set (range_prefix (GetUserPath username) (kvs st)).
          fst kv \<noteq> ''admin'' \<and> fst kv \<noteq> ''hashed_password''"
    unfolding set_range_prefix using under_GetUserPath_no_case by blast
  from GetUserWithPassword_loop_no_case [OF this]
  show ?thesis
    using assms
    by (auto simp: GetUserWithPassword_def etcd_Get_WithPrefix_def split: list.splits)
qed

text \<open>After the creation of \<open>alice\<close> as an administrator, she is read back as none.\<close>

theorem C6_GetUserWithPassword_reads_no_child_key_witness:
  "map_of (kvs alice_created) (GetUserAdminPath ''alice'') = Some ''true''
   \<and> GetUserWithPassword alice_created ''alice''
       = Inr \<lparr>User.Username = ''alice'', PlaintextPassword = [], BcryptedPassword = None,
              AuthToken = [], User.Admin = False\<rparr>"
proof -
  have "(GetUserPath ''alice'', []) \<in> set (kvs alice_created)"
    by (simp add: alice_created_eq etcd_of_def GetUserPath_def users_prefix_def)
  moreover have "HasPrefix (GetUserPath ''alice'') (GetUserPath ''alice'')"
    using HasPrefix_append [of "GetUserPath ''alice''" "[]"] by simp
  ultimately have "range_prefix (GetUserPath ''alice'') (kvs alice_created) \<noteq> []"
    unfolding range_prefix_empty_iff by force
  with C6_GetUserWithPassword_reads_no_child_key [OF example_lookups(1), of "''alice''"]
  show ?thesis
    by (simp add: zero_User_def alice_created_eq etcd_of_def GetUserAdminPath_def GetUserPath_def
          users_prefix_def)
qed

subsection \<open>Deleting\<close>

lemma Delete_cases:
  "fault st = None \<Longrightarrow>
   Delete st username =
     (if range_prefix (GetUserPath username) (kvs st) = [] then (Some ErrRecordNotFound, st)
      else (None, st\<lparr>kvs := delete_prefix (GetUserPath username) (kvs st)\<rparr>))"
  by (auto simp: Delete_def Let_def etcd_Get_WithPrefix_def etcd_Delete_WithPrefix_def
           split: list.splits)

text \<open>
  Two parts of claim C8 hold: with no key under the prefix \<open>Delete\<close> returns NotFound, and
  so does a second \<open>Delete\<close> after a successful one.
\<close>

lemma Delete_nothing_under_prefix:
  assumes "fault st = None" and "range_prefix (GetUserPath username) (kvs st) = []"
  shows "Delete st username = (Some ErrRecordNotFound, st)"
  using assms by (simp add: Delete_cases)

lemma Delete_twice:
  assumes "fault st = None" and "fst (Delete st username) = None"
  shows "fst (Delete (snd (Delete st username)) username) = Some ErrRecordNotFound"
  using assms by (simp add: Delete_cases range_prefix_delete_prefix split: if_splits)

text \<open>
  Claim C8 also says that deleting a username that does not exist returns NotFound.  The
  code does not: the prefix of the scan is the account key with no separator after it, so
  it covers the keys of every username that begins with the given one.  Whenever such a
  longer username has its account key in the store, \<open>Delete\<close> of the shorter name returns
  no error and removes that key.
\<close>

theorem C8_Delete_takes_longer_usernames:
  assumes "fault st = None"
    and "map_of (kvs st) (GetUserPath (username @ x)) = Some v"
  shows "fst (Delete st username) = None
       \<and> map_of (kvs (snd (Delete st username))) (GetUserPath (username @ x)) = None"
proof -
  have "(GetUserPath (username @ x), v) \<in> set (kvs st)"
    using assms(2) by (rule map_of_SomeD)
  moreover have pre: "HasPrefix (GetUserPath (username @ x)) (GetUserPath username)"
    by (simp add: GetUserPath_append HasPrefix_append)
  ultimately have "range_prefix (GetUserPath username) (kvs st) \<noteq> []"
    unfolding range_prefix_empty_iff by force
  then show ?thesis
    using assms(1) pre by (simp add: Delete_cases map_of_delete_prefix)
qed

text \<open>Only \<open>alice2\<close> was created; deleting \<open>alice\<close> succeeds and takes her account.\<close>

theorem C8_Delete_takes_longer_usernames_witness:
  "map_of (kvs alice2_created) (GetUserPath ''alice'') = None
   \<and> map_of (kvs alice2_created) (GetUserPath ''alice2'') = Some []
   \<and> fst (Delete alice2_created ''alice'') = None
   \<and> map_of (kvs (snd (Delete alice2_created ''alice''))) (GetUserPath ''alice2'') = None"
proof -
  have 1: "fault alice2_created = None"
    by (simp add: alice2_created_eq etcd_of_def)
  have 2: "map_of (kvs alice2_created) (GetUserPath (''alice'' @ ''2'')) = Some []"
    by (simp add: alice2_created_eq etcd_of_def GetUserPath_def users_prefix_def)
  have 3: "map_of (kvs alice2_created) (GetUserPath ''alice'') = None"
    by (simp add: alice2_created_eq etcd_of_def GetUserPath_def users_prefix_def)
  from C8_Delete_takes_longer_usernames [OF 1 2] 2 3
  show ?thesis by simp
qed

subsection \<open>Overwriting\<close>

text \<open>
  Claim C10.  For every \<open>User\<close> record, \<open>UpdateNoLock\<close> writes under the account key the
  JSON payload of the record; the payload does not depend on the plaintext password nor on
  the raw auth token, which are left out of the serialization, and it contains the member
  \<open>_\<close> holding the bcrypt hash (in base64, the JSON form of a byte slice; \<open>null\<close> for a nil
  slice).
\<close>

theorem C10_overwrite_payload:
  assumes "fault st = None"
  shows \<open>fst (UpdateNoLock E st user) = None
       \<and> map_of (kvs (snd (UpdateNoLock E st user))) (GetUserPath (User.Username user))
           = Some (json_Marshal_User E user)
       \<and> json_Marshal_User E (user\<lparr>PlaintextPassword := p, AuthToken := t\<rparr>)
           = json_Marshal_User E user
       \<and> Contains (json_Marshal_User E user)
           ('',"_":'' @ (case BcryptedPassword user of
                           None \<Rightarrow> ''null''
                         | Some b \<Rightarrow> ''"'' @ EncodeToString b @ ''"''))\<close>
proof -
  have \<open>Contains (json_Marshal_User E user)
           ('',"_":'' @ (case BcryptedPassword user of
                           None \<Rightarrow> ''null''
                         | Some b \<Rightarrow> ''"'' @ EncodeToString b @ ''"''))\<close>
    unfolding json_Marshal_User_def
    using Contains_append [of \<open>''{"username":'' @ json_quote E (User.Username user)\<close>
       \<open>'',"_":'' @ (case BcryptedPassword user of
                       None \<Rightarrow> ''null''
                     | Some b \<Rightarrow> ''"'' @ EncodeToString b @ ''"'')\<close>
       \<open>'',"admin":'' @ Sprint_bool (User.Admin user) @ ''}''\<close>]
    by simp
  then show ?thesis
    using assms
    by (simp add: UpdateNoLock_def etcd_Put_def map_of_put_key json_Marshal_User_def)
qed

lemma json_Marshal_User_alice:
  \<open>json_Marshal_User stub_deps alice =
     ''{"username":"alice","_":"JDJhJDEyJGFiY2RlZmdoaWprbG1ub3BxcnN0dXY=","admin":true}''\<close>
  by (simp add: json_Marshal_User_def stub_deps_def alice_def Sprint_bool_def b64_def
        encodeStd_def)

text \<open>
  The record of \<open>alice\<close>, overwritten into the empty store: the payload under her account
  key, which holds neither her password nor her token.
\<close>

theorem C10_overwrite_payload_witness:
  \<open>fst (UpdateNoLock stub_deps empty_etcd alice) = None
   \<and> map_of (kvs (snd (UpdateNoLock stub_deps empty_etcd alice))) ''sqlpipe/data/users/alice''
       = Some ''{"username":"alice","_":"JDJhJDEyJGFiY2RlZmdoaWprbG1ub3BxcnN0dXY=","admin":true}''
   \<and> json_Marshal_User stub_deps (alice\<lparr>PlaintextPassword := ''another password'',
                                           AuthToken := ''another token''\<rparr>)
       = ''{"username":"alice","_":"JDJhJDEyJGFiY2RlZmdoaWprbG1ub3BxcnN0dXY=","admin":true}''
   \<and> Contains ''{"username":"alice","_":"JDJhJDEyJGFiY2RlZmdoaWprbG1ub3BxcnN0dXY=","admin":true}''
        '',"_":"JDJhJDEyJGFiY2RlZmdoaWprbG1ub3BxcnN0dXY="''\<close>
proof -
  have 1: "fault empty_etcd = None"
    by (simp add: empty_etcd_def)
  have path: "GetUserPath (User.Username alice) = ''sqlpipe/data/users/alice''"
    by (simp add: GetUserPath_def users_prefix_def alice_def)
  have hash: \<open>(case BcryptedPassword alice of
                 None \<Rightarrow> ''null''
               | Some b \<Rightarrow> ''"'' @ EncodeToString b @ ''"'')
              = ''"JDJhJDEyJGFiY2RlZmdoaWprbG1ub3BxcnN0dXY="''\<close>
    by (simp add: alice_def b64_def encodeStd_def)
  from C10_overwrite_payload
         [OF 1, where E = stub_deps and user = alice and p = "''another password''"
            and t = "''another token''"]
  show ?thesis
    unfolding json_Marshal_User_alice path hash by simp
qed

subsection \<open>Listing\<close>

lemma below_account_is_descendant:
  assumes "HasPrefix k (users_prefix @ ''/'')"
  shows "length (Split (TrimPrefix k ''sqlpipe/data/users'') (CHR ''/'')) > 1"
proof -
  obtain x where k: "k = users_prefix @ ''/'' @ x"
    using assms unfolding HasPrefix_iff by auto
  have "HasPrefix k ''sqlpipe/data/users''"
    unfolding HasPrefix_iff k users_prefix_def by simp
  then have "TrimPrefix k ''sqlpipe/data/users'' = CHR ''/'' # x"
    by (simp add: TrimPrefix_def k users_prefix_def)
  then show ?thesis
    using Split_not_Nil [of x "CHR ''/''"] by (cases "Split x (CHR ''/'')") auto
qed

lemma GetAll_loop_skips_layout_keys:
  "\<forall>kv \<in> set l. HasPrefix (fst kv) (users_prefix @ ''/'') \<Longrightarrow>
   GetAll_loop E username admin l acc = Inr acc"
proof (induction l)
  case Nil
  then show ?case by simp
next
  case (Cons kv l)
  have len: "length (Split (TrimPrefix (fst kv) ''sqlpipe/data/users'') (CHR ''/'')) > 1"
    by (rule below_account_is_descendant) (use Cons.prems in simp)
  then obtain w ws where sp: "Split (TrimPrefix (fst kv) ''sqlpipe/data/users'') (CHR ''/'') = w # ws"
    by (cases "Split (TrimPrefix (fst kv) ''sqlpipe/data/users'') (CHR ''/'')") auto
  have ih: "GetAll_loop E username admin l acc = Inr acc"
    by (rule Cons.IH) (use Cons.prems in simp)
  show ?case
    using len ih by (simp add: Let_def sp)
qed

lemma Min_int_0: "Min_int x 0 \<le> 0"
  by (simp add: Min_int_def)

lemma GetAll_page_done: "\<not> i < maxItem \<Longrightarrow> GetAll_page users i maxItem acc = Inr acc"
  by (simp add: GetAll_page.simps)

text \<open>
  Claim C4 says that \<open>GetAll\<close> with no filter and a page that holds all accounts returns
  every created account exactly once.  The code does not.  The scan strips
  \<open>sqlpipe/data/users\<close> from a key and splits the rest at the separator; for an account
  key of the layout the rest begins with the separator, so the split has two pieces and
  the key is skipped as a child node.  In a store that holds only account keys and their
  descendants the listing is empty and its total is zero, for every filter and every page
  with a non-negative offset.
\<close>

theorem C4_GetAll_lists_no_account_of_the_layout:
  assumes "fault st = None"
    and "\<forall>kv \<in> set (kvs st). HasPrefix (fst kv) (users_prefix @ ''/'')"
    and "0 \<le> offset E filters"
  shows "GetAll E st username admin filters =
           Inr ([], calculateMetadata E 0 (Page filters) (PageSize filters))"
proof -
  have "\<forall>kv \<in> set (range_prefix ''sqlpipe/data/users'' (kvs st)).
          HasPrefix (fst kv) (users_prefix @ ''/'')"
    unfolding set_range_prefix using assms(2) by simp
  then have scan: "GetAll_loop E username admin (range_prefix ''sqlpipe/data/users'' (kvs st)) ([], 0)
                = Inr ([], 0)"
    by (rule GetAll_loop_skips_layout_keys)
  have page: "GetAll_page (sort_users E filters []) (offset E filters)
                (Min_int (wrap64 (offset E filters + limit E filters)) 0) [] = Inr []"
    using assms(3) Min_int_0 [of "wrap64 (offset E filters + limit E filters)"]
    by (intro GetAll_page_done) linarith
  show ?thesis
    using assms(1) scan page
    by (simp add: GetAll_def etcd_Get_WithPrefix_def Let_def)
qed

text \<open>After the creation of \<open>alice\<close>, the first page of twenty lists nobody.\<close>

theorem C4_GetAll_lists_no_account_of_the_layout_witness:
  "fst (Insert stub_deps empty_etcd alice) = None
   \<and> GetAll stub_deps (snd (Insert stub_deps empty_etcd alice)) [] None first_page
       = Inr ([], (0, 1, 20))"
proof -
  have 2: "\<forall>kv \<in> set (kvs alice_created). HasPrefix (fst kv) (users_prefix @ ''/'')"
    by (simp add: alice_created_eq etcd_of_def users_prefix_def)
  have 3: "0 \<le> offset stub_deps first_page"
    by (simp add: stub_deps_def first_page_def)
  have ok: "fst (Insert stub_deps empty_etcd alice) = None"
    by (simp add: Insert_fresh empty_etcd_def)
  from C4_GetAll_lists_no_account_of_the_layout [OF example_lookups(1) 2 3, of "[]" None] ok
  show ?thesis
    by (simp add: alice_created_def stub_deps_def first_page_def)
qed

text \<open>
  What holds of the branch at lines 399 to 402: when the offset exceeds the counter of the
  scan, \<open>GetAll\<close> returns the empty page, the metadata computed from that counter, and no
  error.
\<close>

lemma GetAll_offset_past_the_counter:
  assumes "fault st = None"
    and "GetAll_loop E username admin (range_prefix ''sqlpipe/data/users'' (kvs st)) ([], 0)
           = Inr (users, totalRecords)"
    and "totalRecords < offset E filters"
  shows "GetAll E st username admin filters =
           Inr ([], calculateMetadata E totalRecords (Page filters) (PageSize filters))"
  using assms by (simp add: GetAll_def etcd_Get_WithPrefix_def Let_def)

text \<open>The account key of a username without separator has one segment beyond the prefix.\<close>

lemma Split_no_separator: "sep \<notin> set s \<Longrightarrow> Split s sep = [s]"
  by (induction s) auto

lemma segments_of_account_key:
  assumes "CHR ''/'' \<notin> set name"
  shows "segments_beyond_prefix (GetUserPath name) = Some [name]"
proof -
  have "GetUserPath name = (users_prefix @ ''/'') @ name"
    by (simp add: GetUserPath_def)
  moreover have "HasPrefix ((users_prefix @ ''/'') @ name) (users_prefix @ ''/'')"
    by (rule HasPrefix_append)
  ultimately show ?thesis
    using assms by (simp add: segments_beyond_prefix_def Split_no_separator)
qed

text \<open>
  Claim C9 says that when the offset exceeds the total number of matching accounts,
  \<open>GetAll\<close> returns an empty page with metadata computed from the true total match count.
  The empty page and the absence of an error hold; the total does not.  The metadata is
  computed from the counter of the scan, and by the defect of claim C4 the scan skips
  every account key: in a store that holds only account keys and their descendants, when
  the offset exceeds the number of matching accounts, the metadata is computed from zero,
  however many accounts match.
\<close>

theorem C9_metadata_not_from_the_match_count:
  assumes "fault st = None"
    and "\<forall>kv \<in> set (kvs st). HasPrefix (fst kv) (users_prefix @ ''/'')"
    and "int (length (true_matches E username admin (kvs st))) < offset E filters"
  shows "GetAll E st username admin filters =
           Inr ([], calculateMetadata E 0 (Page filters) (PageSize filters))"
proof -
  have "\<forall>kv \<in> set (range_prefix ''sqlpipe/data/users'' (kvs st)).
          HasPrefix (fst kv) (users_prefix @ ''/'')"
    unfolding set_range_prefix using assms(2) by simp
  then have scan: "GetAll_loop E username admin (range_prefix ''sqlpipe/data/users'' (kvs st)) ([], 0)
                = Inr ([], 0)"
    by (rule GetAll_loop_skips_layout_keys)
  have "0 < offset E filters"
    using assms(3) by linarith
  with GetAll_offset_past_the_counter [OF assms(1) scan] show ?thesis
    by simp
qed

lemma alice_overwritten_eq:
  "alice_overwritten = etcd_of [(''sqlpipe/data/users/alice'', alice_record_json)]"
  by (simp add: alice_overwritten_def UpdateNoLock_def etcd_Put_def empty_etcd_def etcd_of_def
        put_key_def json_Marshal_User_alice alice_record_json_def)
     (simp add: GetUserPath_def users_prefix_def alice_def)

lemma alice_overwritten_matches:
  "true_matches stub_deps [] None (kvs alice_overwritten)
     = [\<lparr>ScrubbedUser.Username = ''alice'', ScrubbedUser.Admin = True\<rparr>]"
proof -
  have key: "''sqlpipe/data/users/alice'' = GetUserPath ''alice''"
    by (simp add: GetUserPath_def users_prefix_def)
  have seg: "segments_beyond_prefix ''sqlpipe/data/users/alice'' = Some [''alice'']"
    unfolding key by (rule segments_of_account_key) simp
  have dec: "json_Unmarshal_User stub_deps alice_record_json
               = Inr (zero_User\<lparr>User.Username := ''alice'',
                        BcryptedPassword := Some ''$2a$12$abcdefghijklmnopqrstuv'',
                        User.Admin := True\<rparr>)"
    by (simp add: stub_deps_def alice_json_def alice_record_json_def)
  show ?thesis
    by (simp add: true_matches_def account_match_def alice_overwritten_eq etcd_of_def seg dec
          Scrub_def zero_User_def)
qed

text \<open>
  \<open>UpdateNoLock\<close> has written the record of \<open>alice\<close>: \<open>Get\<close> returns her and one account
  matches the empty filters, yet the third page of twenty (offset 40) comes with the total
  0, where the true total gives the metadata of 1.
\<close>

theorem C9_metadata_not_from_the_match_count_witness:
  "fst (UpdateNoLock stub_deps empty_etcd alice) = None
   \<and> Get stub_deps alice_overwritten ''alice''
       = Inr \<lparr>ScrubbedUser.Username = ''alice'', ScrubbedUser.Admin = True\<rparr>
   \<and> length (true_matches stub_deps [] None (kvs alice_overwritten)) = 1
   \<and> offset stub_deps third_page = 40
   \<and> GetAll stub_deps alice_overwritten [] None third_page = Inr ([], (0, 3, 20))
   \<and> calculateMetadata stub_deps 1 (Page third_page) (PageSize third_page) = (1, 3, 20)"
proof -
  have 1: "fault alice_overwritten = None"
    by (simp add: alice_overwritten_eq etcd_of_def)
  have 2: "\<forall>kv \<in> set (kvs alice_overwritten). HasPrefix (fst kv) (users_prefix @ ''/'')"
    by (simp add: alice_overwritten_eq etcd_of_def users_prefix_def)
  have off: "offset stub_deps third_page = 40"
    by (simp add: stub_deps_def third_page_def)
  have 3: "int (length (true_matches stub_deps [] None (kvs alice_overwritten)))
             < offset stub_deps third_page"
    unfolding alice_overwritten_matches off by simp
  have written: "fst (UpdateNoLock stub_deps empty_etcd alice) = None"
    by (simp add: UpdateNoLock_def etcd_Put_def empty_etcd_def)
  have got: "Get stub_deps alice_overwritten ''alice''
               = Inr \<lparr>ScrubbedUser.Username = ''alice'', ScrubbedUser.Admin = True\<rparr>"
    by (simp add: Get_def etcd_Get_def range_key_def alice_overwritten_eq etcd_of_def
          GetUserPath_def users_prefix_def stub_deps_def alice_json_def alice_record_json_def
          Scrub_def zero_User_def)
  have meta:
    "calculateMetadata stub_deps 0 (Page third_page) (PageSize third_page) = (0, 3, 20)"
    "calculateMetadata stub_deps 1 (Page third_page) (PageSize third_page) = (1, 3, 20)"
    by (simp_all add: stub_deps_def third_page_def)
  from C9_metadata_not_from_the_match_count [OF 1 2 3] written got off meta
  show ?thesis
    unfolding alice_overwritten_matches by simp
qed

end
